theory Spec2Isabelle
  imports Main
begin

section \<open>Data model of dlock\<close>

text \<open>
  The file \<open>dlock.go\<close> holds two versions of the lock client: the current one, type
  \<open>Dlock\<close> with the constructor \<open>New\<close> (lines 1 to 195), and a legacy one, type
  \<open>Client\<close> with the constructor \<open>NewClient\<close> (lines 196 to 379). Both are embedded
  here. Where the two versions use the same Go name, the legacy one carries the prefix
  \<open>Client_\<close>.

  A Go method with a pointer receiver becomes a function that takes the struct and
  returns the struct afterwards, together with what the method returns and with the
  list of the events it produces, in program order. The embedding describes one
  goroutine at a time; what several goroutines do together is an interleaving of their
  event lists, and a call of \<open>DestroySession\<close> made by another goroutine during a
  run of the retry loop is that function applied to the client between two attempts.
  Two things are taken as given, as they are for a client made by \<open>New\<close> and used
  as the example program uses it: the pointer \<open>ConsulClient\<close> is not nil, and the
  channels \<open>acquired\<close> and \<open>released\<close> are open (a send on them blocks until it
  is received and does not panic).
\<close>

text \<open>A Go \<open>error\<close> value; \<open>None\<close> of \<open>error option\<close> is Go's \<open>nil\<close> error.\<close>

datatype error = Err string

text \<open>\<open>time.Duration\<close>: a count of nanoseconds.\<close>

type_synonym duration = int

definition Second :: duration where
  "Second = 1000000000"

definition Minute :: duration where
  "Minute = 60 * Second"


definition DefautSessionTTL :: duration where
  "DefautSessionTTL = 5 * Minute"


text \<open>
  The legacy struct \<open>Client\<close> has the fields \<open>ConsulClient\<close>, \<open>Key\<close>, \<open>SessionID\<close>,
  \<open>LockRetryInterval\<close> and \<open>SessionTTL\<close>; the struct \<open>Dlock\<close> has the same five
  fields and \<open>PermanentRelease\<close>, so it is written as an extension of the first
  record. \<open>ConsulClient\<close> is a pointer to the consul API client; only its identity
  lives in the struct (0 is the nil of a zero struct), and what the consul agent
  answers comes from the \<open>responses\<close> below. The fields of \<open>Config\<close> that share a
  name with a field of the client carry the prefix \<open>cfg_\<close>.
\<close>

record Client =
  ConsulClient :: nat
  Key :: string
  SessionID :: string
  LockRetryInterval :: duration
  SessionTTL :: duration

record Dlock = Client +
  PermanentRelease :: bool


text \<open>
  A lock value \<open>map[string]string\<close> that is not nil, and the bytes handed to consul:
  the JSON encoding of a map, or the nil slice that \<open>json.Marshal\<close> returns with an
  error. The argument \<open>value\<close> of \<open>RetryLockAcquire\<close> may also be the nil map; it
  is a \<open>lock_value option\<close>, with \<open>None\<close> for nil.
\<close>

type_synonym lock_value = "string \<rightharpoonup> string"

datatype payload = NilBytes | Json lock_value

subsection \<open>Observable events\<close>

text \<open>
  Every call of the logger, one constructor per call site, carrying the arguments
  that are formatted into the line.
\<close>

datatype log_entry =
    LogNewClientError error
  | LogPermanentlyReleased string
  | LogAcquireLockError error duration
  | LogLockAcquired string
  | LogCannotDestroyEmpty
  | LogDestroyed string
  | LogMarshalError error
  | LogSessionInvalid string
  | LogLockReleased string
  | LogChecksError error
  | LogCreatedSession string

text \<open>The two goroutines that \<open>acquireLock\<close> starts with a \<open>go\<close> statement.\<close>

datatype goroutine = RenewalTask | ReleaseWatcher

text \<open>
  What a goroutine of the client does that another party can see: log lines, calls of
  the consul API (with their arguments), operations on the ticker and on channels, and
  \<open>go\<close> statements. A run of a function is the list of its events in program order.
  A channel \<open>doneCh\<close> is named by its address. The call of \<open>RenewPeriodic\<close> lasts:
  it has an event for the call, which carries the \<open>doneCh\<close> it is given, and one for
  its return.
\<close>

datatype event =
    Log log_entry
  | NewTicker duration
  | TickerRecv
  | TickerStop
  | AgentChecks
  | SessionCreate string "string list" duration
  | SessionDestroy string
  | SessionInfo string
  | SessionRenewPeriodic duration string nat
  | RenewPeriodicReturned nat
  | JsonMarshal lock_value
  | LockOpts string payload string
  | LockLock
  | MakeDoneCh nat
  | Go goroutine
  | RecvResp
  | CloseDoneCh nat
  | SendAcquired
  | SendReleased

section \<open>The consul agent as a script of answers\<close>

text \<open>
  The client talks to the consul agent, to the JSON encoder, to the clock and to the
  Go runtime (the allocator of channels, the ticker). None of them is code of this
  repository, so one attempt of the retry loop is run against a record of what each
  of them answers during that attempt. A Go result \<open>(x, err)\<close>
  is a pair whose second component is \<open>None\<close> for a nil error.
  \<^item> \<open>now_rfc3339\<close>: the string \<open>time.Now().Format(time.RFC3339)\<close>;
  \<^item> \<open>checks_resp\<close>: \<open>Agent().Checks()\<close>, as the \<open>CheckID\<close>s of the returned map
    in the order in which \<open>range\<close> visits them, and the error;
  \<^item> \<open>create_resp\<close>: \<open>Session().Create\<close>, the new session id and the error;
  \<^item> \<open>marshal_err\<close>: the error of \<open>json.Marshal\<close>;
  \<^item> \<open>lockopts_err\<close>: the error of \<open>LockOpts\<close>;
  \<^item> \<open>info_resp\<close>: \<open>Session().Info\<close>, whether the session entry is non-nil, and
    the error;
  \<^item> \<open>lock_resp\<close>: \<open>lock.Lock(nil)\<close>, whether the returned channel is non-nil, and
    the error;
  \<^item> \<open>done_chan\<close>: the address of the channel that \<open>make(chan struct{})\<close> returns;
  \<^item> \<open>tick_buffered\<close>: whether the ticker, if it runs when the attempt begins, fires
    during the attempt. The channel \<open>ticker.C\<close> of Go before 1.23 has a buffer of
    one: such a tick stays in it and is received by the next \<open><-ticker.C\<close>, also
    when the ticker has been stopped in between. From Go 1.23 on no tick is received
    after \<open>Stop\<close>, which is the case where the field is false.
\<close>

record responses =
  now_rfc3339 :: string
  checks_resp :: "string list \<times> error option"
  create_resp :: "string \<times> error option"
  marshal_err :: "error option"
  lockopts_err :: "error option"
  info_resp :: "bool \<times> error option"
  lock_resp :: "bool \<times> error option"
  done_chan :: nat
  tick_buffered :: bool

section \<open>Construction\<close>

text \<open>
  \<open>func New(o *Config) (*Dlock, error)\<close> (lines 43 to 64); \<open>new_client\<close> is the answer of
  \<open>api.NewClient\<close>. \<open>var d Dlock\<close> is the zero value of the struct.
\<close>

definition zero_Dlock :: Dlock where
  "zero_Dlock = \<lparr>ConsulClient = 0, Key = '''', SessionID = '''', LockRetryInterval = 0,
                 SessionTTL = 0, PermanentRelease = False\<rparr>"

definition zero_Client :: Client where
  "zero_Client = \<lparr>ConsulClient = 0, Key = '''', SessionID = '''', LockRetryInterval = 0,
                  SessionTTL = 0\<rparr>"



section \<open>Sessions\<close>

text \<open>
  \<open>func createSession(client *api.Client, consulKey string, ttl time.Duration)
  (string, error)\<close> (lines 177 to 195), the same text in both versions (lines 361 to
  379). The session is created with the check \<open>serfHealth\<close> followed by every
  check of the agent, lock delay 0 and the given TTL.
\<close>

definition createSession :: "string \<Rightarrow> duration \<Rightarrow> responses \<Rightarrow> (string \<times> error option) \<times> event list" where
  "createSession consulKey ttl r =
     (case checks_resp r of
        (agentChecks, Some err) \<Rightarrow> (('''', Some err), [AgentChecks, Log (LogChecksError err)])
      | (agentChecks, None) \<Rightarrow>
          (let checks = [''serfHealth''] @ agentChecks in
           case create_resp r of
             (sessionID, Some err) \<Rightarrow>
               (('''', Some err), [AgentChecks, SessionCreate consulKey checks ttl])
           | (sessionID, None) \<Rightarrow>
               ((sessionID, None),
                [AgentChecks, SessionCreate consulKey checks ttl,
                 Log (LogCreatedSession sessionID)])))"

text \<open>
  \<open>func (d *Dlock) recreateSession() error\<close> (lines 124 to 131, legacy 311 to 318),
  with \<open>d.createSession()\<close> inlined: it passes \<open>d.Key\<close> and \<open>d.SessionTTL\<close> on.
\<close>

definition recreateSession :: "Dlock \<Rightarrow> responses \<Rightarrow> error option \<times> Dlock \<times> event list" where
  "recreateSession d r =
     (case createSession (Key d) (SessionTTL d) r of
        ((sessionID, Some err), evs) \<Rightarrow> (Some err, d, evs)
      | ((sessionID, None), evs) \<Rightarrow> (None, d\<lparr>SessionID := sessionID\<rparr>, evs))"

definition Client_recreateSession :: "Client \<Rightarrow> responses \<Rightarrow> error option \<times> Client \<times> event list" where
  "Client_recreateSession c r =
     (case createSession (Key c) (SessionTTL c) r of
        ((sessionID, Some err), evs) \<Rightarrow> (Some err, c, evs)
      | ((sessionID, None), evs) \<Rightarrow> (None, c\<lparr>SessionID := sessionID\<rparr>, evs))"

section \<open>One acquisition attempt\<close>

text \<open>
  \<open>func (d *Dlock) acquireLock(value map[string]string, released chan<- bool)
  (bool, error)\<close> (lines 133 to 175). The result is the returned pair, the client
  afterwards and the events of the call. \<open>LockOpts\<close> is always called with a wait
  time of one second and \<open>LockTryOnce\<close>; the event keeps the key, the value and the
  session. On success the function makes the channel \<open>doneCh\<close> and starts two
  goroutines; what they do is \<open>renewal_task\<close> and \<open>release_watcher\<close> below, at the
  channel just made. The map is not nil: the only caller has assigned to it.
\<close>

definition acquireLock :: "Dlock \<Rightarrow> lock_value \<Rightarrow> responses \<Rightarrow> (bool \<times> error option) \<times> Dlock \<times> event list" where
  "acquireLock d val r =
     (let (err1, d1, ev1) =
            (if SessionID d = '''' then recreateSession d r else (None, d, [])) in
      if err1 \<noteq> None then ((False, err1), d1, ev1)
      else
        let (b, ev2) =
              (case marshal_err r of
                 None \<Rightarrow> (Json val, [JsonMarshal val])
               | Some err \<Rightarrow> (NilBytes, [JsonMarshal val, Log (LogMarshalError err)]));
            ev3 = ev1 @ ev2 @ [LockOpts (Key d1) b (SessionID d1)] in
        if lockopts_err r \<noteq> None then ((False, lockopts_err r), d1, ev3)
        else
          let (a, err4) = info_resp r;
              ev4 = ev3 @ [SessionInfo (SessionID d1)] in
          if err4 = None \<and> \<not> a then
            ((False, None), d1\<lparr>SessionID := ''''\<rparr>,
             ev4 @ [Log (LogSessionInvalid (SessionID d1))])
          else if err4 \<noteq> None then ((False, err4), d1, ev4)
          else
            let (resp, err5) = lock_resp r;
                ev5 = ev4 @ [LockLock] in
            if err5 \<noteq> None then ((False, err5), d1, ev5)
            else if resp then
              ((True, None), d1,
               ev5 @ [MakeDoneCh (done_chan r), Go RenewalTask, Go ReleaseWatcher])
            else ((False, None), d1, ev5))"

text \<open>
  \<open>func (c *Client) acquireLock\<close>, the legacy version (lines 320 to 359): no
  \<open>doneCh\<close> and no renewal goroutine.
\<close>

definition Client_acquireLock :: "Client \<Rightarrow> lock_value \<Rightarrow> responses \<Rightarrow> (bool \<times> error option) \<times> Client \<times> event list" where
  "Client_acquireLock c val r =
     (let (err1, c1, ev1) =
            (if SessionID c = '''' then Client_recreateSession c r else (None, c, [])) in
      if err1 \<noteq> None then ((False, err1), c1, ev1)
      else
        let (b, ev2) =
              (case marshal_err r of
                 None \<Rightarrow> (Json val, [JsonMarshal val])
               | Some err \<Rightarrow> (NilBytes, [JsonMarshal val, Log (LogMarshalError err)]));
            ev3 = ev1 @ ev2 @ [LockOpts (Key c1) b (SessionID c1)] in
        if lockopts_err r \<noteq> None then ((False, lockopts_err r), c1, ev3)
        else
          let (a, err4) = info_resp r;
              ev4 = ev3 @ [SessionInfo (SessionID c1)] in
          if err4 = None \<and> \<not> a then
            ((False, None), c1\<lparr>SessionID := ''''\<rparr>,
             ev4 @ [Log (LogSessionInvalid (SessionID c1))])
          else if err4 \<noteq> None then ((False, err4), c1, ev4)
          else
            let (resp, err5) = lock_resp r;
                ev5 = ev4 @ [LockLock] in
            if err5 \<noteq> None then ((False, err5), c1, ev5)
            else if resp then ((True, None), c1, ev5 @ [Go ReleaseWatcher])
            else ((False, None), c1, ev5))"

subsection \<open>The goroutines started on success\<close>

text \<open>
  The bodies of the two \<open>go func() { ... }()\<close> of \<open>Dlock.acquireLock\<close> (lines 164
  to 170), each as the events it produces in program order; \<open>d\<close> is the client as
  the goroutine reads it and \<open>ch\<close> the \<open>doneCh\<close> of the call that started it. The
  renewal goroutine makes one call, \<open>RenewPeriodic\<close> with \<open>doneCh\<close>, and ends when
  the call returns; nothing in the repository waits for that. The watcher first
  receives from \<open>resp\<close>, the channel that consul closes when the lock is lost.
\<close>

definition renewal_task :: "Dlock \<Rightarrow> nat \<Rightarrow> event list" where
  "renewal_task d ch =
     [SessionRenewPeriodic (SessionTTL d) (SessionID d) ch, RenewPeriodicReturned ch]"

definition release_watcher :: "Dlock \<Rightarrow> nat \<Rightarrow> event list" where
  "release_watcher d ch =
     [RecvResp, Log (LogLockReleased (SessionID d)), CloseDoneCh ch, SendReleased]"

text \<open>
  The two goroutines that a successful call of \<open>Dlock.acquireLock\<close> with the answers
  \<open>r\<close> starts, the renewal first: both closures capture the one variable \<open>doneCh\<close>
  of line 162, so the channel that the watcher closes is the channel that
  \<open>RenewPeriodic\<close> has been given.
\<close>

definition holding_goroutines :: "Dlock \<Rightarrow> responses \<Rightarrow> event list \<times> event list" where
  "holding_goroutines d r =
     (renewal_task d (done_chan r), release_watcher d (done_chan r))"


section \<open>The retry loop\<close>

text \<open>
  How far a call of \<open>RetryLockAcquire\<close> has come when the script of answers ends:
  it has returned; it is at the receive from \<open>ticker.C\<close> with a tick still to come
  or to be taken from the buffer; it is at that receive for ever, the ticker stopped
  and the buffer empty (after \<open>Stop\<close> no more ticks are sent); or it has panicked:
  \<open>time.NewTicker\<close> panics when its interval is not positive, and the assignment to
  an entry of a nil map panics.
\<close>

datatype status = Returned | AwaitingTick | Parked | Panicked

text \<open>
  One execution of the body of \<open>for ; true; <-ticker.C { ... }\<close> in
  \<open>Dlock.RetryLockAcquire\<close>, for a map that is not nil (the nil map is treated in
  \<open>RetryLockAcquire\<close> below: a map that is not nil stays so). The map \<open>value\<close> is
  the caller's: the assignment to \<open>value["lockAcquisitionTime"]\<close> is returned as the
  map afterwards. The first component tells whether the body left the loop with
  \<open>break\<close>.
\<close>

definition RetryLockAcquire_body :: "Dlock \<Rightarrow> lock_value \<Rightarrow> responses \<Rightarrow> bool \<times> Dlock \<times> lock_value \<times> event list" where
  "RetryLockAcquire_body d val r =
     (let val1 = val(''lockAcquisitionTime'' \<mapsto> now_rfc3339 r);
          ((lock, err), d1, evs) = acquireLock d val1 r in
      case err of
        Some e \<Rightarrow> (False, d1, val1, evs @ [Log (LogAcquireLockError e (LockRetryInterval d1))])
      | None \<Rightarrow>
          if lock then
            (True, d1, val1,
             evs @ [Log (LogLockAcquired (SessionID d1)), TickerStop, SendAcquired])
          else (False, d1, val1, evs))"

text \<open>
  The loop from its post statement, the receive from \<open>ticker.C\<close>, on: each element
  of the list is the answers during one further attempt, made when the ticker has
  fired.
\<close>

fun RetryLockAcquire_ticks :: "Dlock \<Rightarrow> lock_value \<Rightarrow> responses list \<Rightarrow> status \<times> Dlock \<times> lock_value \<times> event list" where
  "RetryLockAcquire_ticks d val [] = (AwaitingTick, d, val, [])"
| "RetryLockAcquire_ticks d val (r # rs) =
     (let (brk, d1, val1, evs) = RetryLockAcquire_body d val r in
      if brk then (Returned, d1, val1, TickerRecv # evs)
      else
        let (st, d2, val2, evs2) = RetryLockAcquire_ticks d1 val1 rs in
        (st, d2, val2, TickerRecv # evs @ evs2))"

text \<open>
  The loop of \<open>Dlock.RetryLockAcquire\<close> (lines 76 to 90) for a map that is not nil:
  the ticker is made, the first attempt is made at once with the answers \<open>r\<close>, the
  later ones with \<open>rs\<close>, one per tick.
\<close>

definition RetryLockAcquire_loop :: "Dlock \<Rightarrow> lock_value \<Rightarrow> responses \<Rightarrow> responses list \<Rightarrow> status \<times> Dlock \<times> lock_value \<times> event list" where
  "RetryLockAcquire_loop d val r rs =
     (let (brk, d1, val1, evs) = RetryLockAcquire_body d val r in
      if brk then (Returned, d1, val1, NewTicker (LockRetryInterval d) # evs)
      else
        let (st, d2, val2, evs2) = RetryLockAcquire_ticks d1 val1 rs in
        (st, d2, val2, NewTicker (LockRetryInterval d) # evs @ evs2))"

text \<open>
  \<open>func (d *Dlock) RetryLockAcquire(value map[string]string, acquired chan<- bool,
  released chan<- bool)\<close> (lines 71 to 91). The guard on \<open>PermanentRelease\<close> comes
  first. \<open>time.NewTicker\<close> panics when the interval is not positive, before any
  attempt. With the nil map the ticker is made and the first execution of the body
  panics at its first statement, the assignment of line 78.
\<close>

definition RetryLockAcquire :: "Dlock \<Rightarrow> lock_value option \<Rightarrow> responses \<Rightarrow> responses list \<Rightarrow> status \<times> Dlock \<times> lock_value option \<times> event list" where
  "RetryLockAcquire d vmap r rs =
     (if PermanentRelease d then
        (Returned, d, vmap, [Log (LogPermanentlyReleased (SessionID d))])
      else if LockRetryInterval d \<le> 0 then (Panicked, d, vmap, [])
      else
        case vmap of
          None \<Rightarrow> (Panicked, d, None, [NewTicker (LockRetryInterval d)])
        | Some val \<Rightarrow>
            (let (st, d1, val1, evs) = RetryLockAcquire_loop d val r rs in
             (st, d1, Some val1, evs)))"

text \<open>
  The legacy loop (lines 275 to 290) has no test of a release flag and no \<open>break\<close>:
  after \<open>ticker.Stop()\<close> and the send on \<open>acquired\<close> it goes back to the receive
  from \<open>ticker.C\<close>. The first component of the body tells whether the body has
  stopped the ticker.
\<close>

definition Client_RetryLockAcquire_body :: "Client \<Rightarrow> lock_value \<Rightarrow> responses \<Rightarrow> bool \<times> Client \<times> lock_value \<times> event list" where
  "Client_RetryLockAcquire_body c val r =
     (let val1 = val(''lockAcquisitionTime'' \<mapsto> now_rfc3339 r);
          ((lock, err), c1, evs) = Client_acquireLock c val1 r in
      case err of
        Some e \<Rightarrow> (False, c1, val1, evs @ [Log (LogAcquireLockError e (LockRetryInterval c1))])
      | None \<Rightarrow>
          if lock then
            (True, c1, val1,
             evs @ [Log (LogLockAcquired (SessionID c1)), TickerStop, SendAcquired])
          else (False, c1, val1, evs))"

text \<open>
  The legacy loop from its post statement on. \<open>stopped\<close> tells whether the ticker has
  been stopped, \<open>buffered\<close> whether a tick is in the buffer of \<open>ticker.C\<close>. With the
  ticker stopped and the buffer empty the receive never ends. Otherwise a tick is
  received, from the buffer or when the running ticker fires, and the body is executed
  with the next answers; a tick is in the buffer afterwards when the ticker was running
  as the attempt began and fired during it. A stopped ticker does not fire, so after a
  successful attach the loop makes at most one more attempt.
\<close>

fun Client_RetryLockAcquire_ticks :: "bool \<Rightarrow> bool \<Rightarrow> Client \<Rightarrow> lock_value \<Rightarrow> responses list \<Rightarrow> status \<times> Client \<times> lock_value \<times> event list" where
  "Client_RetryLockAcquire_ticks stopped buffered c val [] =
     (if stopped \<and> \<not> buffered then Parked else AwaitingTick, c, val, [])"
| "Client_RetryLockAcquire_ticks stopped buffered c val (r # rs) =
     (if stopped \<and> \<not> buffered then (Parked, c, val, [])
      else
        let (stop, c1, val1, evs) = Client_RetryLockAcquire_body c val r;
            (st, c2, val2, evs2) =
              Client_RetryLockAcquire_ticks (stopped \<or> stop) (\<not> stopped \<and> tick_buffered r)
                c1 val1 rs
        in (st, c2, val2, TickerRecv # evs @ evs2))"

text \<open>The legacy loop for a map that is not nil, from the making of the ticker on.\<close>

definition Client_RetryLockAcquire_loop :: "Client \<Rightarrow> lock_value \<Rightarrow> responses \<Rightarrow> responses list \<Rightarrow> status \<times> Client \<times> lock_value \<times> event list" where
  "Client_RetryLockAcquire_loop c val r rs =
     (let (stop, c1, val1, evs) = Client_RetryLockAcquire_body c val r;
          (st, c2, val2, evs2) =
            Client_RetryLockAcquire_ticks stop (tick_buffered r) c1 val1 rs
      in (st, c2, val2, NewTicker (LockRetryInterval c) # evs @ evs2))"

text \<open>
  \<open>func (c *Client) RetryLockAcquire\<close>, the legacy version (lines 275 to 290), with
  the same two panics.
\<close>

definition Client_RetryLockAcquire :: "Client \<Rightarrow> lock_value option \<Rightarrow> responses \<Rightarrow> responses list \<Rightarrow> status \<times> Client \<times> lock_value option \<times> event list" where
  "Client_RetryLockAcquire c vmap r rs =
     (if LockRetryInterval c \<le> 0 then (Panicked, c, vmap, [])
      else
        case vmap of
          None \<Rightarrow> (Panicked, c, None, [NewTicker (LockRetryInterval c)])
        | Some val \<Rightarrow>
            (let (st, c1, val1, evs) = Client_RetryLockAcquire_loop c val r rs in
             (st, c1, Some val1, evs)))"

section \<open>DestroySession\<close>

text \<open>
  \<open>func (d *Dlock) DestroySession() error\<close> (lines 96 to 108). The argument
  \<open>destroy_err\<close> is the error that \<open>Session().Destroy\<close> answers with when it is
  called. The result is the returned error, the client afterwards and the events.
\<close>

definition DestroySession :: "Dlock \<Rightarrow> error option \<Rightarrow> error option \<times> Dlock \<times> event list" where
  "DestroySession d destroy_err =
     (if SessionID d = '''' then (None, d, [Log LogCannotDestroyEmpty])
      else case destroy_err of
             Some err \<Rightarrow> (Some err, d, [SessionDestroy (SessionID d)])
           | None \<Rightarrow>
               (None, d\<lparr>PermanentRelease := True\<rparr>,
                [SessionDestroy (SessionID d), Log (LogDestroyed (SessionID d))]))"

text \<open>\<open>func (c *Client) DestroySession() error\<close>, the legacy version (lines 294 to 305).\<close>

definition Client_DestroySession :: "Client \<Rightarrow> error option \<Rightarrow> error option \<times> Client \<times> event list" where
  "Client_DestroySession c destroy_err =
     (if SessionID c = '''' then (None, c, [Log LogCannotDestroyEmpty])
      else case destroy_err of
             Some err \<Rightarrow> (Some err, c, [SessionDestroy (SessionID c)])
           | None \<Rightarrow>
               (None, c, [SessionDestroy (SessionID c), Log (LogDestroyed (SessionID c))]))"

section \<open>Notions used to state the properties\<close>

text \<open>
  The events of an acquisition attempt that fails: log lines and calls of consul and
  of the encoder. Operations on the ticker and on channels, and the start of a
  goroutine, are not among them.
\<close>

fun plain :: "event \<Rightarrow> bool" where
  "plain (Log l) = True"
| "plain AgentChecks = True"
| "plain (SessionCreate n cs t) = True"
| "plain (SessionDestroy s) = True"
| "plain (SessionInfo s) = True"
| "plain (JsonMarshal m) = True"
| "plain (LockOpts k b s) = True"
| "plain LockLock = True"
| "plain e = False"

text \<open>The events of a retry loop that has not acquired the lock yet.\<close>

fun waiting :: "event \<Rightarrow> bool" where
  "waiting (NewTicker i) = True"
| "waiting TickerRecv = True"
| "waiting e = plain e"

text \<open>
  The map that an event hands to the encoder or, encoded, to consul as the value of
  the lock.
\<close>

fun attach_value :: "event \<Rightarrow> lock_value option" where
  "attach_value (JsonMarshal m) = Some m"
| "attach_value (LockOpts k (Json m) s) = Some m"
| "attach_value e = None"

text \<open>
  A \<open>Dlock\<close> read as a legacy \<open>Client\<close>, and a \<open>Client\<close> read as a \<open>Dlock\<close> that
  is not permanently released.
\<close>

definition to_Client :: "Dlock \<Rightarrow> Client" where
  "to_Client d = \<lparr>ConsulClient = ConsulClient d, Key = Key d, SessionID = SessionID d,
     LockRetryInterval = LockRetryInterval d, SessionTTL = SessionTTL d\<rparr>"

definition of_Client :: "Client \<Rightarrow> Dlock" where
  "of_Client c = \<lparr>ConsulClient = ConsulClient c, Key = Key c, SessionID = SessionID c,
     LockRetryInterval = LockRetryInterval c, SessionTTL = SessionTTL c,
     PermanentRelease = False\<rparr>"

text \<open>
  The events of session renewal, which only the current version has: making and
  closing \<open>doneCh\<close>, starting the renewal goroutine, and the call of
  \<open>RenewPeriodic\<close>.
\<close>

fun renewal_event :: "event \<Rightarrow> bool" where
  "renewal_event (MakeDoneCh ch) = True"
| "renewal_event (Go RenewalTask) = True"
| "renewal_event (CloseDoneCh ch) = True"
| "renewal_event (SessionRenewPeriodic t s ch) = True"
| "renewal_event (RenewPeriodicReturned ch) = True"
| "renewal_event e = False"

definition without_renewal :: "event list \<Rightarrow> event list" where
  "without_renewal evs = filter (\<lambda>e. \<not> renewal_event e) evs"


text \<open>The events of \<open>createSession\<close>.\<close>

fun session_event :: "event \<Rightarrow> bool" where
  "session_event AgentChecks = True"
| "session_event (SessionCreate n cs t) = True"
| "session_event (Log (LogChecksError e)) = True"
| "session_event (Log (LogCreatedSession s)) = True"
| "session_event e = False"

text \<open>
  The events with which a successful attempt of \<open>Dlock.RetryLockAcquire\<close> ends, from
  the making of \<open>doneCh\<close> in \<open>acquireLock\<close> to the send on \<open>acquired\<close>.
\<close>

definition hold_events :: "string \<Rightarrow> nat \<Rightarrow> event list" where
  "hold_events sid ch =
     [MakeDoneCh ch, Go RenewalTask, Go ReleaseWatcher, Log (LogLockAcquired sid),
      TickerStop, SendAcquired]"

text \<open>The same for the legacy loop, from the start of the watcher on.\<close>

definition Client_hold_events :: "string \<Rightarrow> event list" where
  "Client_hold_events sid =
     [Go ReleaseWatcher, Log (LogLockAcquired sid), TickerStop, SendAcquired]"




text \<open>The time that the clock shows at attempt \<open>i\<close>, counted from 0.\<close>

definition stamp_at :: "responses \<Rightarrow> responses list \<Rightarrow> nat \<Rightarrow> string" where
  "stamp_at r rs i = now_rfc3339 ((r # rs) ! i)"

subsection \<open>Concrete inputs\<close>

definition example_dlock :: Dlock where
  "example_dlock = \<lparr>ConsulClient = 1, Key = ''LockKV'', SessionID = ''s1'',
     LockRetryInterval = 10 * Second, SessionTTL = DefautSessionTTL,
     PermanentRelease = False\<rparr>"

definition released_dlock :: Dlock where
  "released_dlock = example_dlock\<lparr>PermanentRelease := True\<rparr>"

definition example_value :: lock_value where
  "example_value = [''hostname'' \<mapsto> ''web1'']"

text \<open>Every call succeeds and the lock is free.\<close>

definition answers_ok :: responses where
  "answers_ok = \<lparr>now_rfc3339 = ''2017-06-01T10:00:20Z'',
     checks_resp = ([''service:web''], None), create_resp = (''s2'', None),
     marshal_err = None, lockopts_err = None, info_resp = (True, None),
     lock_resp = (True, None), done_chan = 7, tick_buffered = False\<rparr>"

text \<open>Another session holds the lock: \<open>lock.Lock\<close> returns a nil channel.\<close>

definition answers_busy :: responses where
  "answers_busy = answers_ok\<lparr>now_rfc3339 := ''2017-06-01T10:00:00Z'',
     lock_resp := (False, None)\<rparr>"

text \<open>The session is gone: \<open>Session().Info\<close> returns nil and no error.\<close>

definition answers_gone :: responses where
  "answers_gone = answers_ok\<lparr>now_rfc3339 := ''2017-06-01T10:00:10Z'',
     info_resp := (False, None)\<rparr>"

text \<open>Every call succeeds, and the ticker fires during the attempt.\<close>

definition answers_ok_tick :: responses where
  "answers_ok_tick = answers_ok\<lparr>tick_buffered := True\<rparr>"

text \<open>Every call succeeds, ten seconds later.\<close>

definition answers_late :: responses where
  "answers_late = answers_ok\<lparr>now_rfc3339 := ''2017-06-01T10:00:30Z'', done_chan := 8\<rparr>"

text \<open>What the goroutine of \<open>RetryLockAcquire\<close> does after it has started the watcher.\<close>

definition example_others :: "event list" where
  "example_others = [Log (LogLockAcquired ''s1''), TickerStop, SendAcquired]"

section \<open>Lemmas on one attempt\<close>

lemma session_event_plain: "session_event e \<Longrightarrow> plain e"
  by (cases e) auto


lemma session_event_not_info: "session_event e \<Longrightarrow> e \<noteq> SessionInfo s"
  by (cases e) auto

lemma createSession_events: "e \<in> set (snd (createSession k t r)) \<Longrightarrow> session_event e"
  by (cases "checks_resp r"; cases "create_resp r"; cases "snd (checks_resp r)";
      cases "snd (create_resp r)")
     (auto simp: createSession_def)

lemma recreateSession_events:
  "recreateSession d r = (err, d', evs) \<Longrightarrow> e \<in> set evs \<Longrightarrow> session_event e"
  using createSession_events [of e "Key d" "SessionTTL d" r]
  by (auto simp: recreateSession_def split: prod.splits option.splits)

lemma recreateSession_frame:
  "recreateSession d r = (err, d', evs) \<Longrightarrow> d'\<lparr>SessionID := SessionID d\<rparr> = d"
  by (auto simp: recreateSession_def split: prod.splits option.splits)

lemma recreateSession_first:
  "recreateSession d r = (err, d', evs) \<Longrightarrow> \<exists>rest. evs = AgentChecks # rest"
  by (cases "checks_resp r"; cases "create_resp r"; cases "snd (checks_resp r)";
      cases "snd (create_resp r)")
     (auto simp: recreateSession_def createSession_def)

lemma recreateSession_result:
  "recreateSession d r = (err, d', evs) \<Longrightarrow>
   (err = None) = (snd (checks_resp r) = None \<and> snd (create_resp r) = None) \<and>
   SessionID d' = (if err = None then fst (create_resp r) else SessionID d)"
  by (cases "checks_resp r"; cases "create_resp r"; cases "snd (checks_resp r)";
      cases "snd (create_resp r)")
     (auto simp: recreateSession_def createSession_def)

text \<open>The first statement of \<open>acquireLock\<close>: the session is created when there is none.\<close>

lemma session_stage:
  assumes "(if SessionID d = '''' then recreateSession d r else (None, d, [])) = (err1, d1, ev1)"
  shows "\<forall>e \<in> set ev1. session_event e"
    and "d1\<lparr>SessionID := SessionID d\<rparr> = d"
    and "(err1 = None) =
           (SessionID d \<noteq> '''' \<or> snd (checks_resp r) = None \<and> snd (create_resp r) = None)"
    and "SessionID d1 = (if SessionID d = '''' \<and> err1 = None then fst (create_resp r)
                         else SessionID d)"
    and "SessionID d = '''' \<Longrightarrow> \<exists>rest. ev1 = AgentChecks # rest"
proof -
  have c: "SessionID d = '''' \<and> recreateSession d r = (err1, d1, ev1)
           \<or> SessionID d \<noteq> '''' \<and> err1 = None \<and> d1 = d \<and> ev1 = []"
    using assms by (cases "SessionID d = ''''") simp_all
  show "\<forall>e \<in> set ev1. session_event e"
    using c recreateSession_events [of d r err1 d1 ev1] by fastforce
  show "d1\<lparr>SessionID := SessionID d\<rparr> = d"
    using c recreateSession_frame [of d r err1 d1 ev1] by fastforce
  show "(err1 = None) =
           (SessionID d \<noteq> '''' \<or> snd (checks_resp r) = None \<and> snd (create_resp r) = None)"
    using c recreateSession_result [of d r err1 d1 ev1] by fastforce
  show "SessionID d1 = (if SessionID d = '''' \<and> err1 = None then fst (create_resp r)
                         else SessionID d)"
    using c recreateSession_result [of d r err1 d1 ev1] by fastforce
  show "SessionID d = '''' \<Longrightarrow> \<exists>rest. ev1 = AgentChecks # rest"
    using c recreateSession_first [of d r err1 d1 ev1] by fastforce
qed


text \<open>
  An attempt either succeeds, and then ends by making \<open>doneCh\<close> and starting the two
  goroutines, or fails with plain events only; at most \<open>SessionID\<close> changes.
\<close>

lemma acquireLock_cases:
  "(\<exists>d' pre. acquireLock d val r =
        ((True, None), d', pre @ [MakeDoneCh (done_chan r), Go RenewalTask, Go ReleaseWatcher])
       \<and> (\<forall>e \<in> set pre. plain e) \<and> d'\<lparr>SessionID := SessionID d\<rparr> = d)
   \<or> (\<exists>err d' evs. acquireLock d val r = ((False, err), d', evs)
       \<and> (\<forall>e \<in> set evs. plain e) \<and> d'\<lparr>SessionID := SessionID d\<rparr> = d)"
proof -
  obtain err1 d1 ev1 where
    s: "(if SessionID d = '''' then recreateSession d r else (None, d, [])) = (err1, d1, ev1)"
    by (metis prod_cases3)
  have ev1: "\<forall>e \<in> set ev1. plain e"
    using session_stage(1) [OF s] session_event_plain by blast
  note f = session_stage(2) [OF s]
  obtain a err4 where i: "info_resp r = (a, err4)" by fastforce
  obtain resp err5 where l: "lock_resp r = (resp, err5)" by fastforce
  show ?thesis
    unfolding acquireLock_def s i l Let_def
    using ev1
    by (cases err1; cases "marshal_err r"; cases "lockopts_err r"; cases a; cases err4;
        cases resp; cases err5)
       (simp_all add: f)
qed






section \<open>Lemmas on the retry loop\<close>

lemma plain_waiting: "plain e \<Longrightarrow> waiting e"
  by (cases e) auto

lemma waiting_not_hold:
  "waiting e \<Longrightarrow> e \<noteq> Go ReleaseWatcher \<and> e \<noteq> TickerStop \<and> e \<noteq> SendAcquired \<and> e \<noteq> SendReleased"
  by (cases e) auto

lemma plain_not_tick: "plain e \<Longrightarrow> e \<noteq> TickerRecv"
  by (cases e) auto

lemma body_value:
  "fst (snd (snd (RetryLockAcquire_body d val r))) = val(''lockAcquisitionTime'' \<mapsto> now_rfc3339 r)"
  by (simp add: RetryLockAcquire_body_def Let_def split: prod.splits option.splits)

lemma body_cases:
  "(\<exists>d' pre. RetryLockAcquire_body d val r =
        (True, d', val(''lockAcquisitionTime'' \<mapsto> now_rfc3339 r), pre @ hold_events (SessionID d') (done_chan r))
       \<and> (\<forall>e \<in> set pre. plain e) \<and> d'\<lparr>SessionID := SessionID d\<rparr> = d)
   \<or> (\<exists>d' evs. RetryLockAcquire_body d val r =
        (False, d', val(''lockAcquisitionTime'' \<mapsto> now_rfc3339 r), evs)
       \<and> (\<forall>e \<in> set evs. plain e) \<and> d'\<lparr>SessionID := SessionID d\<rparr> = d)"
  using acquireLock_cases [of d "val(''lockAcquisitionTime'' \<mapsto> now_rfc3339 r)" r]
  by (auto simp: RetryLockAcquire_body_def hold_events_def Let_def split: option.splits)


lemma body_no_tick:
  "count_list (snd (snd (snd (RetryLockAcquire_body d val r)))) TickerRecv = 0"
proof -
  have "\<forall>e \<in> set (snd (snd (snd (RetryLockAcquire_body d val r)))). e \<noteq> TickerRecv"
    using body_cases [of d val r] plain_not_tick by (fastforce simp: hold_events_def)
  then have "TickerRecv \<notin> set (snd (snd (snd (RetryLockAcquire_body d val r))))"
    by blast
  then show ?thesis by (simp add: count_list_0_iff)
qed



text \<open>
  The map after the loop carries the time of the last attempt made; the attempts after
  the first are counted by the receives from the ticker.
\<close>

lemma ticks_value:
  "case RetryLockAcquire_ticks d val rs of
     (st, d', val', evs) \<Rightarrow>
       count_list evs TickerRecv \<le> length rs \<and>
       val' = (case count_list evs TickerRecv of
                 0 \<Rightarrow> val
               | Suc n \<Rightarrow> val(''lockAcquisitionTime'' \<mapsto> now_rfc3339 (rs ! n)))"
proof (induction rs arbitrary: d val)
  case Nil
  show ?case by simp
next
  case (Cons r rs)
  obtain brk d1 val1 evs1 where b: "RetryLockAcquire_body d val r = (brk, d1, val1, evs1)"
    by (metis prod_cases4)
  have v1: "val1 = val(''lockAcquisitionTime'' \<mapsto> now_rfc3339 r)"
    using body_value [where d = d and val = val and r = r] b by simp
  have n1: "count_list evs1 TickerRecv = 0"
    using body_no_tick [where d = d and val = val and r = r] b by simp
  obtain st d2 val2 evs2 where t: "RetryLockAcquire_ticks d1 val1 rs = (st, d2, val2, evs2)"
    by (metis prod_cases4)
  have ih: "count_list evs2 TickerRecv \<le> length rs \<and>
            val2 = (case count_list evs2 TickerRecv of
                      0 \<Rightarrow> val1
                    | Suc n \<Rightarrow> val1(''lockAcquisitionTime'' \<mapsto> now_rfc3339 (rs ! n)))"
    using Cons.IH [where d = d1 and val = val1] t by simp
  show ?case
  proof (cases brk)
    case True
    then show ?thesis using b v1 n1 by simp
  next
    case False
    then show ?thesis using b t v1 n1 ih by (simp split: nat.splits)
  qed
qed

lemma loop_value:
  "case RetryLockAcquire_loop d val r rs of
     (st, d', val', evs) \<Rightarrow>
       count_list evs TickerRecv \<le> length rs \<and>
       val' = val(''lockAcquisitionTime'' \<mapsto> stamp_at r rs (count_list evs TickerRecv))"
proof -
  obtain brk d1 val1 evs1 where b: "RetryLockAcquire_body d val r = (brk, d1, val1, evs1)"
    by (metis prod_cases4)
  have v1: "val1 = val(''lockAcquisitionTime'' \<mapsto> now_rfc3339 r)"
    using body_value [where d = d and val = val and r = r] b by simp
  have n1: "count_list evs1 TickerRecv = 0"
    using body_no_tick [where d = d and val = val and r = r] b by simp
  obtain st d2 val2 evs2 where t: "RetryLockAcquire_ticks d1 val1 rs = (st, d2, val2, evs2)"
    by (metis prod_cases4)
  have tv: "count_list evs2 TickerRecv \<le> length rs \<and>
            val2 = (case count_list evs2 TickerRecv of
                      0 \<Rightarrow> val1
                    | Suc n \<Rightarrow> val1(''lockAcquisitionTime'' \<mapsto> now_rfc3339 (rs ! n)))"
    using ticks_value [where d = d1 and val = val1 and rs = rs] t by simp
  show ?thesis
  proof (cases brk)
    case True
    then show ?thesis using b v1 n1 by (simp add: RetryLockAcquire_loop_def stamp_at_def)
  next
    case False
    then show ?thesis using b t v1 n1 tv
      by (simp add: RetryLockAcquire_loop_def stamp_at_def split: nat.splits)
  qed
qed

section \<open>Lemmas on the attempts of a run\<close>










section \<open>The legacy client follows the current one\<close>

lemma plain_not_renewal: "plain e \<Longrightarrow> \<not> renewal_event e"
  by (cases e) auto


lemma without_renewal_plain: "\<forall>e \<in> set evs. plain e \<Longrightarrow> without_renewal evs = evs"
  by (simp add: without_renewal_def plain_not_renewal)


lemma without_renewal_append:
  "without_renewal (xs @ ys) = without_renewal xs @ without_renewal ys"
  by (simp add: without_renewal_def)

lemma without_renewal_hold:
  "without_renewal (hold_events sid ch) = Client_hold_events sid"
  by (simp add: without_renewal_def hold_events_def Client_hold_events_def)

lemma to_Client_simps:
  "SessionID (to_Client d) = SessionID d"
  "Key (to_Client d) = Key d"
  "SessionTTL (to_Client d) = SessionTTL d"
  "LockRetryInterval (to_Client d) = LockRetryInterval d"
  "ConsulClient (to_Client d) = ConsulClient d"
  "to_Client (d\<lparr>SessionID := s\<rparr>) = (to_Client d)\<lparr>SessionID := s\<rparr>"
  "to_Client (d\<lparr>PermanentRelease := b\<rparr>) = to_Client d"
  by (simp_all add: to_Client_def)

lemma to_Client_of_Client: "to_Client (of_Client c) = c"
  by (simp add: to_Client_def of_Client_def)

lemma recreateSession_sim:
  "recreateSession d r = (err, d', evs) \<Longrightarrow>
   Client_recreateSession (to_Client d) r = (err, to_Client d', evs)"
  by (auto simp: recreateSession_def Client_recreateSession_def to_Client_simps
      split: prod.splits option.splits)

lemma session_stage_sim:
  assumes "(if SessionID d = '''' then recreateSession d r else (None, d, [])) = (err1, d1, ev1)"
  shows "(if SessionID (to_Client d) = '''' then Client_recreateSession (to_Client d) r
          else (None, to_Client d, [])) = (err1, to_Client d1, ev1)"
  using assms recreateSession_sim [of d r err1 d1 ev1]
  by (auto simp: to_Client_simps split: if_splits)

text \<open>
  On every input the legacy \<open>acquireLock\<close> returns what the current one returns and
  leaves the same fields; its events are those of the current one without the events
  of renewal.
\<close>

lemma acquireLock_sim:
  "Client_acquireLock (to_Client d) val r =
     (case acquireLock d val r of
        (res, d', evs) \<Rightarrow> (res, to_Client d', without_renewal evs))"
proof -
  obtain err1 d1 ev1 where
    s: "(if SessionID d = '''' then recreateSession d r else (None, d, [])) = (err1, d1, ev1)"
    by (metis prod_cases3)
  note s' = session_stage_sim [OF s]
  have w: "without_renewal ev1 = ev1"
    using session_stage(1) [OF s] session_event_plain
    by (intro without_renewal_plain) blast
  obtain a err4 where i: "info_resp r = (a, err4)" by fastforce
  obtain resp err5 where l: "lock_resp r = (resp, err5)" by fastforce
  show ?thesis
    unfolding acquireLock_def Client_acquireLock_def s s' i l Let_def
    by (cases err1; cases "marshal_err r"; cases "lockopts_err r"; cases a; cases err4;
        cases resp; cases err5)
       (simp_all add: w without_renewal_append to_Client_simps,
        simp_all add: without_renewal_def)
qed

lemma body_sim:
  "Client_RetryLockAcquire_body (to_Client d) val r =
     (case RetryLockAcquire_body d val r of
        (brk, d', val', evs) \<Rightarrow> (brk, to_Client d', val', without_renewal evs))"
  unfolding Client_RetryLockAcquire_body_def RetryLockAcquire_body_def Let_def acquireLock_sim
  by (auto simp: without_renewal_def to_Client_simps split: prod.splits option.splits)

lemma Client_body:
  "Client_RetryLockAcquire_body c val r =
     (case RetryLockAcquire_body (of_Client c) val r of
        (brk, d', val', evs) \<Rightarrow> (brk, to_Client d', val', without_renewal evs))"
  using body_sim [of "of_Client c" val r] by (simp add: to_Client_of_Client)






section \<open>Interleavings\<close>

text \<open>
  Where one goroutine makes the event \<open>a\<close> after the events \<open>p\<close>, every interleaving
  with the events of other goroutines splits at \<open>a\<close>: before it come events of \<open>p\<close>
  and of the others only.
\<close>

lemma shuffles_split:
  "zs \<in> shuffles (p @ a # q) ys \<Longrightarrow>
   \<exists>pre post. zs = pre @ a # post \<and> set pre \<subseteq> set p \<union> set ys"
proof (induction zs arbitrary: p ys)
  case Nil
  then show ?case by simp
next
  case (Cons z zs)
  from Cons.prems consider
      (left) "z = hd (p @ a # q)" "zs \<in> shuffles (tl (p @ a # q)) ys"
    | (right) "ys \<noteq> []" "z = hd ys" "zs \<in> shuffles (p @ a # q) (tl ys)"
    by (auto simp: Cons_in_shuffles_iff)
  then show ?case
  proof cases
    case left
    show ?thesis
    proof (cases p)
      case Nil
      with left have "z # zs = [] @ a # zs" by simp
      then show ?thesis using Nil by blast
    next
      case (Cons p0 p')
      with left have z: "z = p0" and "zs \<in> shuffles (p' @ a # q) ys" by simp_all
      from Cons.IH [OF this(2)] obtain pre post where
        "zs = pre @ a # post" "set pre \<subseteq> set p' \<union> set ys" by blast
      then have "z # zs = (p0 # pre) @ a # post \<and> set (p0 # pre) \<subseteq> set p \<union> set ys"
        using z Cons by auto
      then show ?thesis by blast
    qed
  next
    case right
    from Cons.IH [OF right(3)] obtain pre post where
      "zs = pre @ a # post" "set pre \<subseteq> set p \<union> set (tl ys)" by blast
    then have "z # zs = (z # pre) @ a # post \<and> set (z # pre) \<subseteq> set p \<union> set ys"
      using right(1,2) by (cases ys) auto
    then show ?thesis by blast
  qed
qed

section \<open>Shape of a run\<close>




lemma waiting_shape:
  assumes "\<forall>e \<in> set evs. waiting e"
  shows "count_list evs SendAcquired = 0" and "count_list evs (Go ReleaseWatcher) = 0"
    and "SendAcquired \<notin> set evs" and "Go ReleaseWatcher \<notin> set evs"
    and "\<forall>e \<in> set evs. e \<noteq> Go ReleaseWatcher \<and> e \<noteq> TickerStop \<and> e \<noteq> SendAcquired"
proof -
  show "\<forall>e \<in> set evs. e \<noteq> Go ReleaseWatcher \<and> e \<noteq> TickerStop \<and> e \<noteq> SendAcquired"
    using assms waiting_not_hold by blast
  then show "SendAcquired \<notin> set evs" and "Go ReleaseWatcher \<notin> set evs"
    by blast+
  then show "count_list evs SendAcquired = 0" and "count_list evs (Go ReleaseWatcher) = 0"
    by (simp_all add: count_list_0_iff)
qed

lemma plain_shape:
  assumes "\<forall>e \<in> set evs. plain e"
  shows "count_list evs SendAcquired = 0" and "count_list evs (Go ReleaseWatcher) = 0"
    and "count_list evs TickerRecv = 0"
proof -
  have w: "\<forall>e \<in> set evs. waiting e" using assms plain_waiting by blast
  show "count_list evs SendAcquired = 0" and "count_list evs (Go ReleaseWatcher) = 0"
    using waiting_shape(1,2) [OF w] by simp_all
  have "TickerRecv \<notin> set evs" using assms plain_not_tick by blast
  then show "count_list evs TickerRecv = 0" by (simp add: count_list_0_iff)
qed



section \<open>Shape of a run of the legacy loop\<close>

lemma Client_body_cases:
  "(\<exists>c' pre. Client_RetryLockAcquire_body c val r =
        (True, c', val(''lockAcquisitionTime'' \<mapsto> now_rfc3339 r),
         pre @ Client_hold_events (SessionID c'))
       \<and> (\<forall>e \<in> set pre. plain e))
   \<or> (\<exists>c' evs. Client_RetryLockAcquire_body c val r =
        (False, c', val(''lockAcquisitionTime'' \<mapsto> now_rfc3339 r), evs)
       \<and> (\<forall>e \<in> set evs. plain e))"
proof -
  let ?v = "val(''lockAcquisitionTime'' \<mapsto> now_rfc3339 r)"
  from body_cases [of "of_Client c" val r] show ?thesis
  proof (elim disjE exE conjE)
    fix d' pre
    assume b: "RetryLockAcquire_body (of_Client c) val r =
                 (True, d', ?v, pre @ hold_events (SessionID d') (done_chan r))"
      and p: "\<forall>e \<in> set pre. plain e"
    have "Client_RetryLockAcquire_body c val r =
            (True, to_Client d', ?v, pre @ Client_hold_events (SessionID (to_Client d')))"
      using b without_renewal_plain [OF p]
      by (simp add: Client_body without_renewal_append without_renewal_hold to_Client_simps)
    then show ?thesis using p by blast
  next
    fix d' evs
    assume b: "RetryLockAcquire_body (of_Client c) val r = (False, d', ?v, evs)"
      and p: "\<forall>e \<in> set evs. plain e"
    have "Client_RetryLockAcquire_body c val r = (False, to_Client d', ?v, evs)"
      using b without_renewal_plain [OF p] by (simp add: Client_body)
    then show ?thesis using p by blast
  qed
qed

lemma Client_body_value:
  "fst (snd (snd (Client_RetryLockAcquire_body c val r))) =
     val(''lockAcquisitionTime'' \<mapsto> now_rfc3339 r)"
  using Client_body_cases [of c val r] by auto

lemma Client_hold_shape:
  "count_list (Client_hold_events sid) SendAcquired = 1"
  "count_list (Client_hold_events sid) (Go ReleaseWatcher) = 1"
  "count_list (Client_hold_events sid) TickerRecv = 0"
  by (simp_all add: Client_hold_events_def)

lemma Client_body_shape:
  "case Client_RetryLockAcquire_body c val r of
     (stop, c', val', evs) \<Rightarrow>
       count_list evs TickerRecv = 0 \<and>
       count_list evs SendAcquired = count_list evs (Go ReleaseWatcher) \<and>
       count_list evs SendAcquired \<le> 1"
  using Client_body_cases [of c val r]
  by (auto simp: plain_shape Client_hold_shape)



text \<open>
  The map after the legacy loop carries the time of the last attempt made; the attempts
  after the first are counted by the receives from the ticker.
\<close>

lemma Client_ticks_value:
  "case Client_RetryLockAcquire_ticks stopped buffered c val rs of
     (st, c', val', evs) \<Rightarrow>
       count_list evs TickerRecv \<le> length rs \<and>
       val' = (case count_list evs TickerRecv of
                 0 \<Rightarrow> val
               | Suc n \<Rightarrow> val(''lockAcquisitionTime'' \<mapsto> now_rfc3339 (rs ! n)))"
proof (induction rs arbitrary: stopped buffered c val)
  case Nil
  show ?case by simp
next
  case (Cons r rs)
  obtain stop c1 val1 evs1 where
    cb: "Client_RetryLockAcquire_body c val r = (stop, c1, val1, evs1)"
    by (metis prod_cases4)
  have v1: "val1 = val(''lockAcquisitionTime'' \<mapsto> now_rfc3339 r)"
    using Client_body_value [where c = c and val = val and r = r] cb by simp
  have n1: "count_list evs1 TickerRecv = 0"
    using Client_body_shape [where c = c and val = val and r = r] cb by simp
  obtain st c2 val2 evs2 where
    t: "Client_RetryLockAcquire_ticks (stopped \<or> stop) (\<not> stopped \<and> tick_buffered r) c1 val1 rs
          = (st, c2, val2, evs2)"
    by (metis prod_cases4)
  have ih: "count_list evs2 TickerRecv \<le> length rs \<and>
            val2 = (case count_list evs2 TickerRecv of
                      0 \<Rightarrow> val1
                    | Suc n \<Rightarrow> val1(''lockAcquisitionTime'' \<mapsto> now_rfc3339 (rs ! n)))"
    using Cons.IH [where stopped = "stopped \<or> stop" and buffered = "\<not> stopped \<and> tick_buffered r"
        and c = c1 and val = val1] t by simp
  show ?case
  proof (cases "stopped \<and> \<not> buffered")
    case True
    then show ?thesis by simp
  next
    case False
    then show ?thesis using cb t v1 n1 ih by (simp split: nat.splits)
  qed
qed

lemma Client_loop_value:
  "case Client_RetryLockAcquire_loop c val r rs of
     (st, c', val', evs) \<Rightarrow>
       count_list evs TickerRecv \<le> length rs \<and>
       val' = val(''lockAcquisitionTime'' \<mapsto> stamp_at r rs (count_list evs TickerRecv))"
proof -
  obtain stop c1 val1 evs1 where
    cb: "Client_RetryLockAcquire_body c val r = (stop, c1, val1, evs1)"
    by (metis prod_cases4)
  have v1: "val1 = val(''lockAcquisitionTime'' \<mapsto> now_rfc3339 r)"
    using Client_body_value [where c = c and val = val and r = r] cb by simp
  have n1: "count_list evs1 TickerRecv = 0"
    using Client_body_shape [where c = c and val = val and r = r] cb by simp
  obtain st c2 val2 evs2 where
    t: "Client_RetryLockAcquire_ticks stop (tick_buffered r) c1 val1 rs = (st, c2, val2, evs2)"
    by (metis prod_cases4)
  have tv: "count_list evs2 TickerRecv \<le> length rs \<and>
            val2 = (case count_list evs2 TickerRecv of
                      0 \<Rightarrow> val1
                    | Suc n \<Rightarrow> val1(''lockAcquisitionTime'' \<mapsto> now_rfc3339 (rs ! n)))"
    using Client_ticks_value [where stopped = stop and buffered = "tick_buffered r"
        and c = c1 and val = val1 and rs = rs] t by simp
  show ?thesis
    using cb t v1 n1 tv
    by (simp add: Client_RetryLockAcquire_loop_def stamp_at_def split: nat.splits)
qed

section \<open>Runs on the concrete inputs\<close>

lemmas example_defs = example_dlock_def released_dlock_def example_value_def answers_ok_def
  answers_busy_def answers_gone_def answers_ok_tick_def answers_late_def Second_def Minute_def
  DefautSessionTTL_def

lemmas code_defs = acquireLock_def recreateSession_def createSession_def
  RetryLockAcquire_body_def RetryLockAcquire_loop_def RetryLockAcquire_def
  Client_acquireLock_def Client_recreateSession_def Client_RetryLockAcquire_body_def
  Client_RetryLockAcquire_loop_def Client_RetryLockAcquire_def

text \<open>
  The session \<open>s1\<close> exists but another client holds the lock; at the first tick
  consul reports the session gone; at the second tick a new session \<open>s2\<close> is created
  and the lock is acquired. The answers for a third tick are never asked for.
\<close>

lemma example_run:
  "RetryLockAcquire example_dlock (Some example_value) answers_busy
     [answers_gone, answers_ok, answers_ok] =
   (Returned, example_dlock\<lparr>SessionID := ''s2''\<rparr>,
    Some (example_value(''lockAcquisitionTime'' \<mapsto> ''2017-06-01T10:00:20Z'')),
    [NewTicker (10 * Second),
     JsonMarshal (example_value(''lockAcquisitionTime'' \<mapsto> ''2017-06-01T10:00:00Z'')),
     LockOpts ''LockKV''
       (Json (example_value(''lockAcquisitionTime'' \<mapsto> ''2017-06-01T10:00:00Z''))) ''s1'',
     SessionInfo ''s1'', LockLock, TickerRecv,
     JsonMarshal (example_value(''lockAcquisitionTime'' \<mapsto> ''2017-06-01T10:00:10Z'')),
     LockOpts ''LockKV''
       (Json (example_value(''lockAcquisitionTime'' \<mapsto> ''2017-06-01T10:00:10Z''))) ''s1'',
     SessionInfo ''s1'', Log (LogSessionInvalid ''s1''), TickerRecv,
     AgentChecks, SessionCreate ''LockKV'' [''serfHealth'', ''service:web''] DefautSessionTTL,
     Log (LogCreatedSession ''s2''),
     JsonMarshal (example_value(''lockAcquisitionTime'' \<mapsto> ''2017-06-01T10:00:20Z'')),
     LockOpts ''LockKV''
       (Json (example_value(''lockAcquisitionTime'' \<mapsto> ''2017-06-01T10:00:20Z''))) ''s2'',
     SessionInfo ''s2'', LockLock, MakeDoneCh 7, Go RenewalTask, Go ReleaseWatcher,
     Log (LogLockAcquired ''s2''), TickerStop, SendAcquired])"
  by (simp add: code_defs example_defs Let_def)

text \<open>
  The same answers to the legacy loop: no tick is in the buffer when the ticker is
  stopped, and the loop is at its receive for ever.
\<close>

lemma example_run_legacy:
  "Client_RetryLockAcquire (to_Client example_dlock) (Some example_value) answers_busy
     [answers_gone, answers_ok, answers_ok] =
   (Parked, to_Client (example_dlock\<lparr>SessionID := ''s2''\<rparr>),
    Some (example_value(''lockAcquisitionTime'' \<mapsto> ''2017-06-01T10:00:20Z'')),
    [NewTicker (10 * Second),
     JsonMarshal (example_value(''lockAcquisitionTime'' \<mapsto> ''2017-06-01T10:00:00Z'')),
     LockOpts ''LockKV''
       (Json (example_value(''lockAcquisitionTime'' \<mapsto> ''2017-06-01T10:00:00Z''))) ''s1'',
     SessionInfo ''s1'', LockLock, TickerRecv,
     JsonMarshal (example_value(''lockAcquisitionTime'' \<mapsto> ''2017-06-01T10:00:10Z'')),
     LockOpts ''LockKV''
       (Json (example_value(''lockAcquisitionTime'' \<mapsto> ''2017-06-01T10:00:10Z''))) ''s1'',
     SessionInfo ''s1'', Log (LogSessionInvalid ''s1''), TickerRecv,
     AgentChecks, SessionCreate ''LockKV'' [''serfHealth'', ''service:web''] DefautSessionTTL,
     Log (LogCreatedSession ''s2''),
     JsonMarshal (example_value(''lockAcquisitionTime'' \<mapsto> ''2017-06-01T10:00:20Z'')),
     LockOpts ''LockKV''
       (Json (example_value(''lockAcquisitionTime'' \<mapsto> ''2017-06-01T10:00:20Z''))) ''s2'',
     SessionInfo ''s2'', LockLock, Go ReleaseWatcher,
     Log (LogLockAcquired ''s2''), TickerStop, SendAcquired])"
  by (simp add: code_defs example_defs to_Client_def Let_def)

text \<open>
  The legacy loop acquires the lock at once, and the ticker fires during that attempt:
  the tick is received after \<open>ticker.Stop()\<close> and the loop attaches and sends again.
\<close>

lemma tick_run_legacy:
  "Client_RetryLockAcquire (to_Client example_dlock) (Some example_value) answers_ok_tick
     [answers_late, answers_ok] =
   (Parked, to_Client example_dlock,
    Some (example_value(''lockAcquisitionTime'' \<mapsto> ''2017-06-01T10:00:30Z'')),
    [NewTicker (10 * Second),
     JsonMarshal (example_value(''lockAcquisitionTime'' \<mapsto> ''2017-06-01T10:00:20Z'')),
     LockOpts ''LockKV''
       (Json (example_value(''lockAcquisitionTime'' \<mapsto> ''2017-06-01T10:00:20Z''))) ''s1'',
     SessionInfo ''s1'', LockLock, Go ReleaseWatcher,
     Log (LogLockAcquired ''s1''), TickerStop, SendAcquired, TickerRecv,
     JsonMarshal (example_value(''lockAcquisitionTime'' \<mapsto> ''2017-06-01T10:00:30Z'')),
     LockOpts ''LockKV''
       (Json (example_value(''lockAcquisitionTime'' \<mapsto> ''2017-06-01T10:00:30Z''))) ''s1'',
     SessionInfo ''s1'', LockLock, Go ReleaseWatcher,
     Log (LogLockAcquired ''s1''), TickerStop, SendAcquired])"
  by (simp add: code_defs example_defs to_Client_def Let_def)

lemma released_run:
  "RetryLockAcquire released_dlock (Some example_value) answers_ok [answers_ok] =
     (Returned, released_dlock, Some example_value, [Log (LogPermanentlyReleased ''s1'')])"
  by (simp add: RetryLockAcquire_def released_dlock_def example_dlock_def)




section \<open>Properties of the retry loop\<close>




text \<open>
  C3. On a client with \<open>PermanentRelease\<close> set, \<open>RetryLockAcquire\<close> writes one log
  line, which names the last session id, and returns: no ticker is made, no session
  is created, no attach is tried, nothing is sent on either channel, and the client
  and the value map are exactly as before.
\<close>

theorem RetryLockAcquire_released_noop:
  assumes "PermanentRelease d"
  shows "RetryLockAcquire d val r rs =
           (Returned, d, val, [Log (LogPermanentlyReleased (SessionID d))])"
  using assms by (simp add: RetryLockAcquire_def)

theorem RetryLockAcquire_released_noop_witness:
  "PermanentRelease released_dlock \<and>
   RetryLockAcquire released_dlock (Some example_value) answers_ok [answers_ok] =
     (Returned, released_dlock, Some example_value,
      [Log (LogPermanentlyReleased (SessionID released_dlock))])"
proof -
  have h: "PermanentRelease released_dlock"
    by (simp add: released_dlock_def)
  show ?thesis
    using h RetryLockAcquire_released_noop [OF h, of "Some example_value" answers_ok
        "[answers_ok]"]
    by simp
qed

section \<open>Properties of DestroySession\<close>

text \<open>
  C5. On a client with a non-empty \<open>SessionID\<close>, \<open>DestroySession\<close> first calls
  \<open>Session().Destroy\<close> on that session and returns what the call returns. When the
  call succeeds the client afterwards is the client before with \<open>PermanentRelease\<close>
  set; when it fails, the error is returned and the client is unchanged in every
  field. So nil is returned and \<open>PermanentRelease\<close> is set by this call exactly when
  the destroy succeeds.
\<close>

theorem DestroySession_nonempty:
  assumes "SessionID d \<noteq> ''''"
  shows "case DestroySession d x of
           (err, d', evs) \<Rightarrow>
             err = x \<and>
             d' = (if x = None then d\<lparr>PermanentRelease := True\<rparr> else d) \<and>
             (\<exists>rest. evs = SessionDestroy (SessionID d) # rest) \<and>
             ((err = None \<and> d' = d\<lparr>PermanentRelease := True\<rparr>) = (x = None))"
  using assms by (cases x) (simp_all add: DestroySession_def)

theorem DestroySession_nonempty_witness:
  "SessionID example_dlock \<noteq> '''' \<and>
   DestroySession example_dlock None =
     (None, released_dlock, [SessionDestroy ''s1'', Log (LogDestroyed ''s1'')]) \<and>
   DestroySession example_dlock (Some (Err ''rpc error'')) =
     (Some (Err ''rpc error''), example_dlock, [SessionDestroy ''s1''])"
proof -
  have h: "SessionID example_dlock \<noteq> ''''"
    by (simp add: example_dlock_def)
  show ?thesis
    using h DestroySession_nonempty [OF h, of None]
      DestroySession_nonempty [OF h, of "Some (Err ''rpc error'')"]
    by (simp add: DestroySession_def released_dlock_def example_dlock_def)
qed

text \<open>
  C6, as the code has it. With an empty \<open>SessionID\<close>, \<open>DestroySession\<close> writes the
  log line "cannot destroy empty session" and returns nil without calling consul, in
  both versions; the client is left as it was. In particular the current version does
  not set \<open>PermanentRelease\<close> here: the flag is set only after a destroy that
  succeeded.
\<close>

theorem DestroySession_empty:
  "(SessionID d = '''' \<longrightarrow> DestroySession d x = (None, d, [Log LogCannotDestroyEmpty])) \<and>
   (SessionID c = '''' \<longrightarrow>
      Client_DestroySession c x = (None, c, [Log LogCannotDestroyEmpty]))"
  by (simp add: DestroySession_def Client_DestroySession_def)

theorem DestroySession_empty_witness:
  "SessionID zero_Dlock = '''' \<and>
   DestroySession zero_Dlock None = (None, zero_Dlock, [Log LogCannotDestroyEmpty]) \<and>
   SessionID zero_Client = '''' \<and>
   Client_DestroySession zero_Client None = (None, zero_Client, [Log LogCannotDestroyEmpty])"
  using DestroySession_empty [of zero_Dlock None zero_Client]
  by (simp add: zero_Dlock_def zero_Client_def)

text \<open>
  The claim as it was stated fails on the zero client of \<open>New\<close>: its session id is
  empty, the call returns nil, and \<open>PermanentRelease\<close> is still false afterwards.
\<close>

theorem DestroySession_empty_counterexample:
  "SessionID zero_Dlock = '''' \<and>
   fst (DestroySession zero_Dlock None) = None \<and>
   \<not> PermanentRelease (fst (snd (DestroySession zero_Dlock None)))"
  by (simp add: DestroySession_def zero_Dlock_def)

section \<open>Properties of the session id\<close>

text \<open>
  An attempt starts with the events of its first statement, which creates the session
  when there is none.
\<close>

lemma acquireLock_starts:
  assumes "(if SessionID d = '''' then recreateSession d r else (None, d, [])) = (err1, d1, ev1)"
  shows "\<exists>rest. snd (snd (acquireLock d val r)) = ev1 @ rest"
proof -
  obtain a err4 where i: "info_resp r = (a, err4)" by fastforce
  obtain resp err5 where l: "lock_resp r = (resp, err5)" by fastforce
  show ?thesis
    unfolding acquireLock_def assms i l Let_def
    by (cases err1; cases "marshal_err r"; cases "lockopts_err r"; cases a; cases err4;
        cases resp; cases err5)
       simp_all
qed

lemma acquireLock_recreates:
  assumes "SessionID d = ''''"
  shows "\<exists>rest. snd (snd (acquireLock d val r)) = AgentChecks # rest"
proof -
  obtain err1 d1 ev1 where
    s: "(if SessionID d = '''' then recreateSession d r else (None, d, [])) = (err1, d1, ev1)"
    by (metis prod_cases3)
  from session_stage(5) [OF s assms] obtain rest1 where "ev1 = AgentChecks # rest1" by blast
  moreover from acquireLock_starts [OF s] obtain rest2 where
    "snd (snd (acquireLock d val r)) = ev1 @ rest2" by blast
  ultimately show ?thesis by simp
qed

text \<open>
  The session id after an attempt: empty when the liveness query was made and was
  answered with a nil entry and a nil error; otherwise the id of the session created
  in this attempt, if one was; otherwise the id before.
\<close>

lemma acquireLock_SessionID:
  "case acquireLock d val r of
     (res, d', evs) \<Rightarrow>
       SessionID d' =
         (if (\<exists>s. SessionInfo s \<in> set evs) \<and> info_resp r = (False, None) then ''''
          else if SessionID d = '''' \<and> snd (checks_resp r) = None \<and> snd (create_resp r) = None
               then fst (create_resp r)
               else SessionID d)"
proof -
  obtain err1 d1 ev1 where
    s: "(if SessionID d = '''' then recreateSession d r else (None, d, [])) = (err1, d1, ev1)"
    by (metis prod_cases3)
  have ni: "\<And>s. SessionInfo s \<notin> set ev1"
    using session_stage(1) [OF s] session_event_not_info by blast
  note e1 = session_stage(3) [OF s]
  note sid = session_stage(4) [OF s]
  obtain a err4 where i: "info_resp r = (a, err4)" by fastforce
  obtain resp err5 where l: "lock_resp r = (resp, err5)" by fastforce
  show ?thesis
  proof (cases err1)
    case None
    then have sid': "SessionID d1 =
        (if SessionID d = '''' \<and> snd (checks_resp r) = None \<and> snd (create_resp r) = None
         then fst (create_resp r) else SessionID d)"
      using sid e1 by auto
    show ?thesis
      unfolding acquireLock_def s i l Let_def
      using None
      by (cases "marshal_err r"; cases "lockopts_err r"; cases a; cases err4; cases resp;
          cases err5)
         (simp_all add: ni sid')
  next
    case (Some e)
    then have "SessionID d1 = SessionID d"
      and "\<not> (SessionID d = '''' \<and> snd (checks_resp r) = None \<and> snd (create_resp r) = None)"
      using sid e1 by auto
    then show ?thesis
      unfolding acquireLock_def s i l Let_def
      using Some by (auto simp: ni)
  qed
qed

text \<open>
  C2, as the code has it. \<open>DestroySession\<close> never changes \<open>SessionID\<close>: after a
  destroy that succeeded the client still holds the id of the destroyed session (a
  later \<open>RetryLockAcquire\<close> logs it as the last session id). \<open>SessionID\<close> is cleared
  by \<open>acquireLock\<close>, and there exactly when the liveness query \<open>Session().Info\<close> was
  made in the call and answered with a nil entry and a nil error; in every other
  call it is the id of the session just created when there was none, or unchanged.
\<close>

theorem SessionID_cleared_by_liveness_query:
  "SessionID (fst (snd (DestroySession d x))) = SessionID d \<and>
   (case acquireLock d val r of
      (res, d', evs) \<Rightarrow>
        SessionID d' =
          (if (\<exists>s. SessionInfo s \<in> set evs) \<and> info_resp r = (False, None) then ''''
           else if SessionID d = '''' \<and> snd (checks_resp r) = None \<and>
                   snd (create_resp r) = None
                then fst (create_resp r)
                else SessionID d))"
proof (rule conjI)
  show "SessionID (fst (snd (DestroySession d x))) = SessionID d"
    by (cases x) (simp_all add: DestroySession_def)
next
  show "case acquireLock d val r of
      (res, d', evs) \<Rightarrow>
        SessionID d' =
          (if (\<exists>s. SessionInfo s \<in> set evs) \<and> info_resp r = (False, None) then ''''
           else if SessionID d = '''' \<and> snd (checks_resp r) = None \<and>
                   snd (create_resp r) = None
                then fst (create_resp r)
                else SessionID d)"
    by (rule acquireLock_SessionID)
qed

text \<open>
  The claim as it was stated fails on \<open>DestroySession\<close>: the destroy of session \<open>s1\<close>
  succeeds, and \<open>SessionID\<close> is still \<open>s1\<close>, not empty.
\<close>

theorem SessionID_after_destroy_counterexample:
  "fst (DestroySession example_dlock None) = None \<and>
   SessionDestroy ''s1'' \<in> set (snd (snd (DestroySession example_dlock None))) \<and>
   SessionID (fst (snd (DestroySession example_dlock None))) = ''s1'' \<and>
   SessionID (fst (snd (DestroySession example_dlock None))) \<noteq> ''''"
  by (simp add: DestroySession_def example_dlock_def)

theorem SessionID_cleared_by_liveness_query_witness:
  "SessionID (fst (snd (DestroySession example_dlock None))) = SessionID example_dlock \<and>
   (\<exists>s. SessionInfo s \<in> set (snd (snd (acquireLock example_dlock example_value answers_gone)))) \<and>
   info_resp answers_gone = (False, None) \<and>
   SessionID (fst (snd (acquireLock example_dlock example_value answers_gone))) = '''' \<and>
   SessionID (fst (snd (acquireLock (example_dlock\<lparr>SessionID := ''''\<rparr>) example_value
       answers_ok))) = ''s2'' \<and>
   SessionID (fst (snd (acquireLock example_dlock example_value answers_busy))) = ''s1''"
  using SessionID_cleared_by_liveness_query [where d = example_dlock and x = None
      and val = example_value and r = answers_gone]
    SessionID_cleared_by_liveness_query [where d = "example_dlock\<lparr>SessionID := ''''\<rparr>"
      and x = None and val = example_value and r = answers_ok]
    SessionID_cleared_by_liveness_query [where d = example_dlock and x = None
      and val = example_value and r = answers_busy]
  by (simp add: code_defs example_defs DestroySession_def Let_def)

text \<open>
  C4. Suppose an attempt reaches the liveness query, that is, the client has a session
  or creates one and \<open>LockOpts\<close> returns no error, and the query answers with a nil
  entry and a nil error. Then \<open>acquireLock\<close> clears \<open>SessionID\<close>, changes no other
  field and returns \<open>(false, nil)\<close>; its last event is the log line that the session
  is invalid; it starts no release watcher and nothing is sent on \<open>released\<close>. The
  loop body therefore neither logs an error nor leaves the loop, and whatever consul
  answers at the next attempt, that attempt starts by creating a session.
\<close>

theorem acquireLock_session_gone:
  assumes "SessionID d \<noteq> '''' \<or> snd (checks_resp r) = None \<and> snd (create_resp r) = None"
    and "lockopts_err r = None"
    and "info_resp r = (False, None)"
  shows "(case acquireLock d val r of
            (res, d', evs) \<Rightarrow>
              res = (False, None) \<and> SessionID d' = '''' \<and>
              d'\<lparr>SessionID := SessionID d\<rparr> = d \<and>
              (\<exists>s. last evs = Log (LogSessionInvalid s)) \<and>
              Go ReleaseWatcher \<notin> set evs \<and> SendReleased \<notin> set evs \<and>
              (\<exists>rest. snd (snd (acquireLock d' val' r')) = AgentChecks # rest)) \<and>
         (case RetryLockAcquire_body d val r of
            (brk, d', val1, evs) \<Rightarrow>
              \<not> brk \<and> SessionID d' = '''' \<and> SendReleased \<notin> set evs \<and>
              SendAcquired \<notin> set evs \<and>
              evs = snd (snd (acquireLock d val1 r)))"
proof -
  have main: "case acquireLock d v r of
            (res, d', evs) \<Rightarrow>
              res = (False, None) \<and> SessionID d' = '''' \<and>
              d'\<lparr>SessionID := SessionID d\<rparr> = d \<and>
              (\<exists>s. last evs = Log (LogSessionInvalid s)) \<and>
              (\<forall>e \<in> set evs. plain e)" for v
  proof -
    obtain err1 d1 ev1 where
      s: "(if SessionID d = '''' then recreateSession d r else (None, d, [])) = (err1, d1, ev1)"
      by (metis prod_cases3)
    have e1: "err1 = None"
      using session_stage(3) [OF s] assms(1) by blast
    have p1: "\<forall>e \<in> set ev1. plain e"
      using session_stage(1) [OF s] session_event_plain by blast
    note f = session_stage(2) [OF s]
    show ?thesis
      unfolding acquireLock_def s Let_def
      using acquireLock_cases [of d v r]
      by (cases "marshal_err r") (simp_all add: e1 assms(2,3) p1 f)
  qed
  obtain res d' evs where a: "acquireLock d val r = (res, d', evs)"
    by (metis prod_cases3)
  have m: "res = (False, None)" "SessionID d' = ''''" "d'\<lparr>SessionID := SessionID d\<rparr> = d"
    "\<exists>s. last evs = Log (LogSessionInvalid s)" "\<forall>e \<in> set evs. plain e"
    using main [of val] a by simp_all
  have n: "Go ReleaseWatcher \<notin> set evs" "SendReleased \<notin> set evs"
    using m(5) by fastforce+
  have first: "case acquireLock d val r of
            (res, d', evs) \<Rightarrow>
              res = (False, None) \<and> SessionID d' = '''' \<and>
              d'\<lparr>SessionID := SessionID d\<rparr> = d \<and>
              (\<exists>s. last evs = Log (LogSessionInvalid s)) \<and>
              Go ReleaseWatcher \<notin> set evs \<and> SendReleased \<notin> set evs \<and>
              (\<exists>rest. snd (snd (acquireLock d' val' r')) = AgentChecks # rest)"
    using a m(1-4) n acquireLock_recreates [OF m(2), of val' r'] by simp
  let ?v = "val(''lockAcquisitionTime'' \<mapsto> now_rfc3339 r)"
  obtain res2 d2 evs2 where a2: "acquireLock d ?v r = (res2, d2, evs2)"
    by (metis prod_cases3)
  have m2: "res2 = (False, None)" "SessionID d2 = ''''" "\<forall>e \<in> set evs2. plain e"
    using main [of ?v] a2 by simp_all
  have n2: "SendAcquired \<notin> set evs2" "SendReleased \<notin> set evs2"
    using m2(3) by fastforce+
  have second: "case RetryLockAcquire_body d val r of
            (brk, d', val1, evs) \<Rightarrow>
              \<not> brk \<and> SessionID d' = '''' \<and> SendReleased \<notin> set evs \<and>
              SendAcquired \<notin> set evs \<and>
              evs = snd (snd (acquireLock d val1 r))"
    using a2 m2(1,2) n2 by (simp add: RetryLockAcquire_body_def)
  from first second show ?thesis by (rule conjI)
qed

theorem acquireLock_session_gone_witness:
  "SessionID example_dlock \<noteq> '''' \<and>
   lockopts_err answers_gone = None \<and>
   info_resp answers_gone = (False, None) \<and>
   acquireLock example_dlock example_value answers_gone =
     ((False, None), example_dlock\<lparr>SessionID := ''''\<rparr>,
      [JsonMarshal example_value, LockOpts ''LockKV'' (Json example_value) ''s1'',
       SessionInfo ''s1'', Log (LogSessionInvalid ''s1'')]) \<and>
   snd (snd (acquireLock (example_dlock\<lparr>SessionID := ''''\<rparr>) example_value answers_ok)) =
     [AgentChecks, SessionCreate ''LockKV'' [''serfHealth'', ''service:web''] DefautSessionTTL,
      Log (LogCreatedSession ''s2''), JsonMarshal example_value,
      LockOpts ''LockKV'' (Json example_value) ''s2'', SessionInfo ''s2'', LockLock,
      MakeDoneCh 7, Go RenewalTask, Go ReleaseWatcher]"
proof -
  have h1: "SessionID example_dlock \<noteq> '''' \<or>
      snd (checks_resp answers_gone) = None \<and> snd (create_resp answers_gone) = None"
    by (simp add: example_defs)
  have h2: "lockopts_err answers_gone = None"
    by (simp add: example_defs)
  have h3: "info_resp answers_gone = (False, None)"
    by (simp add: example_defs)
  show ?thesis
    using h1 h2 h3
      acquireLock_session_gone [OF h1 h2 h3, where val = example_value and val' = example_value
        and r' = answers_ok]
    by (simp add: code_defs example_defs Let_def)
qed

section \<open>Properties of the value map\<close>




text \<open>
  C10, as the code has it. The map that \<open>RetryLockAcquire\<close> returns is the caller's
  map after the call. A call that does not come to an attempt leaves the map as it
  was and hands no map on: the call on a permanently released client, the call that
  panics in \<open>time.NewTicker\<close> because the retry interval is not positive, and the call
  with the nil map, which panics at the assignment. Every other call of the current
  version, and every call of the legacy version with a positive interval and a map
  that is not nil, leaves the map as before with \<open>lockAcquisitionTime\<close> set, over
  whatever the caller had there, to the time of the last attempt made (the attempts
  after the first are counted by the receives from the ticker), whether or not the lock
  was acquired; every other entry is as it was.
\<close>

theorem RetryLockAcquire_value_map:
  "(case RetryLockAcquire d val r rs of
      (st, d', val', evs) \<Rightarrow>
        (PermanentRelease d \<or> LockRetryInterval d \<le> 0 \<or> val = None \<longrightarrow>
           val' = val \<and> (\<forall>e \<in> set evs. attach_value e = None)) \<and>
        (\<forall>m. \<not> PermanentRelease d \<and> 0 < LockRetryInterval d \<and> val = Some m \<longrightarrow>
           (\<exists>m'. val' = Some m' \<and>
              m' = m(''lockAcquisitionTime'' \<mapsto> stamp_at r rs (count_list evs TickerRecv)) \<and>
              count_list evs TickerRecv \<le> length rs \<and>
              (\<forall>k. k \<noteq> ''lockAcquisitionTime'' \<longrightarrow> m' k = m k)))) \<and>
   (case Client_RetryLockAcquire c val r rs of
      (st, c', val', evs) \<Rightarrow>
        (LockRetryInterval c \<le> 0 \<or> val = None \<longrightarrow>
           val' = val \<and> (\<forall>e \<in> set evs. attach_value e = None)) \<and>
        (\<forall>m. 0 < LockRetryInterval c \<and> val = Some m \<longrightarrow>
           (\<exists>m'. val' = Some m' \<and>
              m' = m(''lockAcquisitionTime'' \<mapsto> stamp_at r rs (count_list evs TickerRecv)) \<and>
              count_list evs TickerRecv \<le> length rs \<and>
              (\<forall>k. k \<noteq> ''lockAcquisitionTime'' \<longrightarrow> m' k = m k))))"
proof (rule conjI)
  show "case RetryLockAcquire d val r rs of
      (st, d', val', evs) \<Rightarrow>
        (PermanentRelease d \<or> LockRetryInterval d \<le> 0 \<or> val = None \<longrightarrow>
           val' = val \<and> (\<forall>e \<in> set evs. attach_value e = None)) \<and>
        (\<forall>m. \<not> PermanentRelease d \<and> 0 < LockRetryInterval d \<and> val = Some m \<longrightarrow>
           (\<exists>m'. val' = Some m' \<and>
              m' = m(''lockAcquisitionTime'' \<mapsto> stamp_at r rs (count_list evs TickerRecv)) \<and>
              count_list evs TickerRecv \<le> length rs \<and>
              (\<forall>k. k \<noteq> ''lockAcquisitionTime'' \<longrightarrow> m' k = m k)))"
  proof (cases "PermanentRelease d \<or> LockRetryInterval d \<le> 0 \<or> val = None")
    case True
    then show ?thesis by (auto simp: RetryLockAcquire_def)
  next
    case False
    then obtain m where n: "\<not> PermanentRelease d" and pos: "0 < LockRetryInterval d"
      and m: "val = Some m"
      by auto
    obtain st d' m' evs where l: "RetryLockAcquire_loop d m r rs = (st, d', m', evs)"
      by (metis prod_cases4)
    have run: "RetryLockAcquire d val r rs = (st, d', Some m', evs)"
      using n pos m l by (simp add: RetryLockAcquire_def)
    have v: "count_list evs TickerRecv \<le> length rs \<and>
             m' = m(''lockAcquisitionTime'' \<mapsto> stamp_at r rs (count_list evs TickerRecv))"
      using loop_value [where d = d and val = m and r = r and rs = rs] l by simp
    then have "\<forall>k. k \<noteq> ''lockAcquisitionTime'' \<longrightarrow> m' k = m k"
      by simp
    then show ?thesis using run n pos m v by simp
  qed
next
  show "case Client_RetryLockAcquire c val r rs of
      (st, c', val', evs) \<Rightarrow>
        (LockRetryInterval c \<le> 0 \<or> val = None \<longrightarrow>
           val' = val \<and> (\<forall>e \<in> set evs. attach_value e = None)) \<and>
        (\<forall>m. 0 < LockRetryInterval c \<and> val = Some m \<longrightarrow>
           (\<exists>m'. val' = Some m' \<and>
              m' = m(''lockAcquisitionTime'' \<mapsto> stamp_at r rs (count_list evs TickerRecv)) \<and>
              count_list evs TickerRecv \<le> length rs \<and>
              (\<forall>k. k \<noteq> ''lockAcquisitionTime'' \<longrightarrow> m' k = m k)))"
  proof (cases "LockRetryInterval c \<le> 0 \<or> val = None")
    case True
    then show ?thesis by (auto simp: Client_RetryLockAcquire_def)
  next
    case False
    then obtain m where pos: "0 < LockRetryInterval c" and m: "val = Some m"
      by auto
    obtain st c' m' evs where l: "Client_RetryLockAcquire_loop c m r rs = (st, c', m', evs)"
      by (metis prod_cases4)
    have run: "Client_RetryLockAcquire c val r rs = (st, c', Some m', evs)"
      using pos m l by (simp add: Client_RetryLockAcquire_def)
    have v: "count_list evs TickerRecv \<le> length rs \<and>
             m' = m(''lockAcquisitionTime'' \<mapsto> stamp_at r rs (count_list evs TickerRecv))"
      using Client_loop_value [where c = c and val = m and r = r and rs = rs] l by simp
    then have "\<forall>k. k \<noteq> ''lockAcquisitionTime'' \<longrightarrow> m' k = m k"
      by simp
    then show ?thesis using run pos m v by simp
  qed
qed

text \<open>
  The calls that make no attempt, the run of three attempts in both versions, and the
  run of the legacy loop that makes one more attempt after its first send: the map
  carries the time of that attempt.
\<close>

theorem RetryLockAcquire_value_map_witness:
  "PermanentRelease released_dlock \<and>
   fst (snd (snd (RetryLockAcquire released_dlock (Some example_value) answers_ok
       [answers_ok]))) = Some example_value \<and>
   LockRetryInterval (example_dlock\<lparr>LockRetryInterval := 0\<rparr>) \<le> 0 \<and>
   RetryLockAcquire (example_dlock\<lparr>LockRetryInterval := 0\<rparr>) (Some example_value) answers_ok
       [answers_ok] =
     (Panicked, example_dlock\<lparr>LockRetryInterval := 0\<rparr>, Some example_value, []) \<and>
   Client_RetryLockAcquire (to_Client (example_dlock\<lparr>LockRetryInterval := 0\<rparr>))
       (Some example_value) answers_ok [answers_ok] =
     (Panicked, to_Client (example_dlock\<lparr>LockRetryInterval := 0\<rparr>), Some example_value, []) \<and>
   RetryLockAcquire example_dlock None answers_ok [answers_ok] =
     (Panicked, example_dlock, None, [NewTicker (10 * Second)]) \<and>
   Client_RetryLockAcquire (to_Client example_dlock) None answers_ok [answers_ok] =
     (Panicked, to_Client example_dlock, None, [NewTicker (10 * Second)]) \<and>
   \<not> PermanentRelease example_dlock \<and> 0 < LockRetryInterval example_dlock \<and>
   0 < LockRetryInterval (to_Client example_dlock) \<and>
   fst (snd (snd (RetryLockAcquire example_dlock (Some example_value) answers_busy
       [answers_gone, answers_ok, answers_ok]))) =
     Some (example_value(''lockAcquisitionTime'' \<mapsto> ''2017-06-01T10:00:20Z'')) \<and>
   fst (snd (snd (Client_RetryLockAcquire (to_Client example_dlock) (Some example_value)
       answers_busy [answers_gone, answers_ok, answers_ok]))) =
     Some (example_value(''lockAcquisitionTime'' \<mapsto> ''2017-06-01T10:00:20Z'')) \<and>
   fst (snd (snd (Client_RetryLockAcquire (to_Client example_dlock) (Some example_value)
       answers_ok_tick [answers_late, answers_ok]))) =
     Some (example_value(''lockAcquisitionTime'' \<mapsto> ''2017-06-01T10:00:30Z'')) \<and>
   ''hostname'' \<noteq> ''lockAcquisitionTime'' \<and>
   (example_value(''lockAcquisitionTime'' \<mapsto> ''2017-06-01T10:00:20Z'')) ''hostname'' =
     example_value ''hostname''"
  using RetryLockAcquire_value_map [where d = released_dlock and val = "Some example_value"
      and r = answers_ok and rs = "[answers_ok]" and c = "to_Client example_dlock"]
    RetryLockAcquire_value_map [where d = example_dlock and val = "Some example_value"
      and r = answers_busy and rs = "[answers_gone, answers_ok, answers_ok]"
      and c = "to_Client example_dlock"]
    RetryLockAcquire_value_map [where d = example_dlock and val = "Some example_value"
      and r = answers_ok_tick and rs = "[answers_late, answers_ok]"
      and c = "to_Client example_dlock"]
    RetryLockAcquire_value_map [where d = example_dlock and val = None
      and r = answers_ok and rs = "[answers_ok]" and c = "to_Client example_dlock"]
    RetryLockAcquire_value_map [where d = "example_dlock\<lparr>LockRetryInterval := 0\<rparr>"
      and val = "Some example_value" and r = answers_ok and rs = "[answers_ok]"
      and c = "to_Client (example_dlock\<lparr>LockRetryInterval := 0\<rparr>)"]
  by (simp add: example_run example_run_legacy released_run tick_run_legacy)
     (simp add: released_dlock_def example_dlock_def to_Client_def Second_def
       RetryLockAcquire_def Client_RetryLockAcquire_def)

text \<open>
  The claim as it was stated, for any call, fails on a permanently released client: the
  caller's map has no \<open>lockAcquisitionTime\<close> entry after the call.
\<close>

theorem RetryLockAcquire_value_map_counterexample:
  "RetryLockAcquire released_dlock (Some example_value) answers_ok [answers_ok] =
     (Returned, released_dlock, Some example_value, [Log (LogPermanentlyReleased ''s1'')]) \<and>
   example_value ''lockAcquisitionTime'' = None"
  unfolding released_run by (simp add: example_value_def)
section \<open>Renewal and release\<close>

text \<open>
  C8. The first half of the claim holds, the conclusion drawn from it does not (see
  the counterexample below). A call of \<open>acquireLock\<close> that acquires the lock ends by
  making \<open>doneCh\<close> and starting the renewal goroutine and the release watcher. The
  renewal goroutine calls \<open>RenewPeriodic\<close> with that channel. The watcher closes that
  same channel and then sends on \<open>released\<close>: in every interleaving of the two
  goroutines with each other and with the events of other goroutines, none of which
  sends on \<open>released\<close> in the episode, what is observed splits at the close of
  \<open>doneCh\<close>, with no send on \<open>released\<close> before it and the send after it. So the
  cancellation is signalled before \<open>released\<close> is delivered. Nothing waits for
  \<open>RenewPeriodic\<close> to return.
\<close>

theorem renewal_cancelled_before_released:
  assumes "fst (fst (acquireLock d val r))"
    and "u \<in> shuffles (fst (holding_goroutines dr r)) others"
    and "t \<in> shuffles (snd (holding_goroutines dw r)) u"
    and "SendReleased \<notin> set others"
  shows "(\<exists>pre0. snd (snd (acquireLock d val r)) =
                  pre0 @ [MakeDoneCh (done_chan r), Go RenewalTask, Go ReleaseWatcher] \<and>
                (\<forall>e \<in> set pre0. plain e)) \<and>
         SessionRenewPeriodic (SessionTTL dr) (SessionID dr) (done_chan r) \<in> set t \<and>
         (\<exists>pre post. t = pre @ CloseDoneCh (done_chan r) # post \<and>
            SendReleased \<notin> set pre \<and> SendReleased \<in> set post)"
proof (intro conjI)
  show "\<exists>pre0. snd (snd (acquireLock d val r)) =
                  pre0 @ [MakeDoneCh (done_chan r), Go RenewalTask, Go ReleaseWatcher] \<and>
                (\<forall>e \<in> set pre0. plain e)"
    using acquireLock_cases [of d val r] assms(1) by auto
next
  have "SessionRenewPeriodic (SessionTTL dr) (SessionID dr) (done_chan r) \<in> set u"
    using set_shuffles [OF assms(2)] by (simp add: holding_goroutines_def renewal_task_def)
  then show "SessionRenewPeriodic (SessionTTL dr) (SessionID dr) (done_chan r) \<in> set t"
    using set_shuffles [OF assms(3)] by simp
next
  let ?c = "CloseDoneCh (done_chan r)"
  let ?p = "[RecvResp, Log (LogLockReleased (SessionID dw))]"
  have w: "snd (holding_goroutines dw r) = ?p @ ?c # [SendReleased]"
    by (simp add: holding_goroutines_def release_watcher_def)
  have nu: "SendReleased \<notin> set u"
    using set_shuffles [OF assms(2)] assms(4)
    by (simp add: holding_goroutines_def renewal_task_def)
  from assms(3) obtain pre post where
    t: "t = pre @ ?c # post" and pre: "set pre \<subseteq> set ?p \<union> set u"
    unfolding w using shuffles_split [of t ?p ?c "[SendReleased]" u] by blast
  have n: "SendReleased \<notin> set pre"
    using pre nu by auto
  have "SendReleased \<in> set t"
    using set_shuffles [OF assms(3)] by (simp add: w)
  then have "SendReleased \<in> set post"
    using t n by simp
  then show "\<exists>pre post. t = pre @ ?c # post \<and> SendReleased \<notin> set pre \<and>
               SendReleased \<in> set post"
    using t n by blast
qed

text \<open>
  The lock is acquired on session \<open>s1\<close> with \<open>doneCh\<close> at address 7. The caller's loop
  writes its log line, stops the ticker and sends on \<open>acquired\<close>; the renewal call is
  made; the lock is lost; the watcher closes channel 7 and sends on \<open>released\<close>, and
  the renewal call returns before that send.
\<close>

theorem renewal_cancelled_before_released_witness:
  "fst (fst (acquireLock example_dlock example_value answers_ok)) \<and>
   [Log (LogLockAcquired ''s1''), SessionRenewPeriodic DefautSessionTTL ''s1'' 7, TickerStop,
    SendAcquired, RenewPeriodicReturned 7]
     \<in> shuffles (fst (holding_goroutines example_dlock answers_ok)) example_others \<and>
   [Log (LogLockAcquired ''s1''), SessionRenewPeriodic DefautSessionTTL ''s1'' 7, TickerStop,
    RecvResp, SendAcquired, Log (LogLockReleased ''s1''), CloseDoneCh 7,
    RenewPeriodicReturned 7, SendReleased]
     \<in> shuffles (snd (holding_goroutines example_dlock answers_ok))
         [Log (LogLockAcquired ''s1''), SessionRenewPeriodic DefautSessionTTL ''s1'' 7,
          TickerStop, SendAcquired, RenewPeriodicReturned 7] \<and>
   SendReleased \<notin> set example_others \<and>
   snd (snd (acquireLock example_dlock example_value answers_ok)) =
     [JsonMarshal example_value, LockOpts ''LockKV'' (Json example_value) ''s1'',
      SessionInfo ''s1'', LockLock, MakeDoneCh 7, Go RenewalTask, Go ReleaseWatcher] \<and>
   done_chan answers_ok = 7 \<and>
   (\<exists>pre post.
      [Log (LogLockAcquired ''s1''), SessionRenewPeriodic DefautSessionTTL ''s1'' 7, TickerStop,
       RecvResp, SendAcquired, Log (LogLockReleased ''s1''), CloseDoneCh 7,
       RenewPeriodicReturned 7, SendReleased]
        = pre @ CloseDoneCh (done_chan answers_ok) # post \<and>
      SendReleased \<notin> set pre \<and> SendReleased \<in> set post)"
proof -
  have h1: "fst (fst (acquireLock example_dlock example_value answers_ok))"
    by (simp add: code_defs example_defs Let_def)
  have h2: "[Log (LogLockAcquired ''s1''), SessionRenewPeriodic DefautSessionTTL ''s1'' 7,
      TickerStop, SendAcquired, RenewPeriodicReturned 7]
     \<in> shuffles (fst (holding_goroutines example_dlock answers_ok)) example_others"
    by (simp add: holding_goroutines_def renewal_task_def example_others_def example_dlock_def
        answers_ok_def Cons_in_shuffles_iff)
  have h3: "[Log (LogLockAcquired ''s1''), SessionRenewPeriodic DefautSessionTTL ''s1'' 7,
      TickerStop, RecvResp, SendAcquired, Log (LogLockReleased ''s1''), CloseDoneCh 7,
      RenewPeriodicReturned 7, SendReleased]
     \<in> shuffles (snd (holding_goroutines example_dlock answers_ok))
         [Log (LogLockAcquired ''s1''), SessionRenewPeriodic DefautSessionTTL ''s1'' 7,
          TickerStop, SendAcquired, RenewPeriodicReturned 7]"
    by (simp add: holding_goroutines_def release_watcher_def example_dlock_def
        answers_ok_def Cons_in_shuffles_iff)
  have h4: "SendReleased \<notin> set example_others"
    by (simp add: example_others_def)
  have e: "snd (snd (acquireLock example_dlock example_value answers_ok)) =
     [JsonMarshal example_value, LockOpts ''LockKV'' (Json example_value) ''s1'',
      SessionInfo ''s1'', LockLock, MakeDoneCh 7, Go RenewalTask, Go ReleaseWatcher]"
    by (simp add: code_defs example_defs Let_def)
  have c: "done_chan answers_ok = 7"
    by (simp add: answers_ok_def)
  from renewal_cancelled_before_released [OF h1 h2 h3 h4] h1 h2 h3 h4 e c show ?thesis
    by blast
qed

text \<open>
  Against the conclusion of C8: the same episode, interleaved otherwise. The watcher
  closes channel 7 and sends on \<open>released\<close> while the call of \<open>RenewPeriodic\<close> that was
  given channel 7 has not returned: the renewal is still running when \<open>released\<close> is
  delivered, and ends only afterwards.
\<close>

theorem renewal_outlives_released_counterexample:
  "holding_goroutines example_dlock answers_ok =
     ([SessionRenewPeriodic DefautSessionTTL ''s1'' 7, RenewPeriodicReturned 7],
      [RecvResp, Log (LogLockReleased ''s1''), CloseDoneCh 7, SendReleased]) \<and>
   [SessionRenewPeriodic DefautSessionTTL ''s1'' 7, RecvResp, Log (LogLockReleased ''s1''),
    CloseDoneCh 7, SendReleased, RenewPeriodicReturned 7]
     \<in> shuffles (snd (holding_goroutines example_dlock answers_ok))
         (fst (holding_goroutines example_dlock answers_ok))"
  by (simp add: holding_goroutines_def release_watcher_def renewal_task_def example_dlock_def
      answers_ok_def Cons_in_shuffles_iff)

section \<open>The two versions compared\<close>







end
